theory Spec2Isabelle
  imports Main "HOL-Library.AList"
begin

section \<open>JavaScript values and library functions the email code relies on\<close>

text \<open>
  A value caught by a \<^verbatim>\<open>catch\<close> clause is either an \<^verbatim>\<open>Error\<close> instance, of which
  the code reads only \<^verbatim>\<open>message\<close>, or some other value.
\<close>

datatype thrown = Error string | NonError

text \<open>\<^verbatim>\<open>error instanceof Error ? error.message : "Unknown error"\<close>\<close>

definition errorText :: "thrown \<Rightarrow> string" where
  "errorText e = (case e of Error m \<Rightarrow> m | NonError \<Rightarrow> ''Unknown error'')"

text \<open>
  \<^verbatim>\<open>x || d\<close> on an optional number: the default is taken when the field is absent and
  also when it is the falsy number 0. Numbers are modelled as integers.
\<close>

definition or_default :: "int option \<Rightarrow> int \<Rightarrow> int" where
  "or_default x d = (case x of None \<Rightarrow> d | Some v \<Rightarrow> if v = 0 then d else v)"

text \<open>
  \<^verbatim>\<open>Array.prototype.slice(start, end)\<close>: a negative index counts from the end of the
  array, both indices are clamped to the array, and an empty range gives the empty array.
\<close>

definition Array_slice :: "int \<Rightarrow> int \<Rightarrow> 'a list \<Rightarrow> 'a list" where
  "Array_slice start fin xs =
     (let len = int (length xs);
          k = (if start < 0 then max (len + start) 0 else min start len);
          final = (if fin < 0 then max (len + fin) 0 else min fin len)
      in take (nat (final - k)) (drop (nat k) xs))"

text \<open>\<^verbatim>\<open>String.prototype.endsWith\<close> and \<^verbatim>\<open>String.prototype.replace\<close> with a string
  pattern (only the first occurrence is replaced).\<close>

definition endsWith :: "string \<Rightarrow> string \<Rightarrow> bool" where
  "endsWith s suffix =
     (length suffix \<le> length s \<and> drop (length s - length suffix) s = suffix)"

fun replace_first :: "string \<Rightarrow> string \<Rightarrow> string \<Rightarrow> string" where
  "replace_first [] pat rep = (if pat = [] then rep else [])"
| "replace_first (c # cs) pat rep =
     (if take (length pat) (c # cs) = pat then rep @ drop (length pat) (c # cs)
      else c # replace_first cs pat rep)"

text \<open>Truthiness of an optional string: \<^verbatim>\<open>undefined\<close> and the empty string are falsy.\<close>

definition truthy :: "string option \<Rightarrow> bool" where
  "truthy s = (case s of None \<Rightarrow> False | Some v \<Rightarrow> v \<noteq> [])"

section \<open>Data model\<close>

text \<open>\<^verbatim>\<open>to: string | string[]\<close>\<close>

datatype recipients = Single string | Multiple "string list"

record attachment =
  filename :: string
  content :: string
  contentType :: "string option"

text \<open>
  \<^verbatim>\<open>EmailData\<close> (config/email.ts) and \<^verbatim>\<open>EmailSendRequest\<close> (EmailController.ts) have
  the same fields; the controller copies one into the other field by field. The template
  context is opaque to this code, so its type is a parameter; the field \<^verbatim>\<open>context\<close>
  is written \<open>ctx\<close>, the source's name being a keyword of the theory language.
\<close>

record 'c EmailData =
  to :: recipients
  subject :: string
  template :: string
  ctx :: 'c
  attachments :: "attachment list option"

type_synonym 'c EmailSendRequest = "'c EmailData"

record 'c EmailBulkRequest =
  emails :: "'c EmailSendRequest list"
  batchSize :: "int option"
  delayBetweenBatches :: "int option"

record EmailResult =
  success :: bool
  messageId :: "string option"
  error :: "string option"

text \<open>nodemailer's \<^verbatim>\<open>SendMailOptions\<close>, as far as \<^verbatim>\<open>sendEmail\<close> fills it; the
  fields carry the prefix \<open>mail_\<close> to keep them apart from those of \<^verbatim>\<open>EmailData\<close>.\<close>

record SendMailOptions =
  mail_from :: string
  mail_to :: recipients
  mail_subject :: string
  mail_html :: string
  mail_attachments :: "attachment list option"
  mail_replyTo :: "string option"

text \<open>The two fields of \<^verbatim>\<open>EMAIL_CONFIG\<close> that \<^verbatim>\<open>sendEmail\<close> reads.\<close>

record EmailConfig =
  config_from :: string
  config_replyTo :: "string option"

text \<open>The return value of \<^verbatim>\<open>sendBulkEmails\<close>.\<close>

record BulkSummary =
  total :: nat
  successful :: nat
  failed :: nat
  results :: "EmailResult list"

section \<open>External collaborators and observable effects\<close>

text \<open>
  The nodemailer transporter is a black box: \<^verbatim>\<open>sendMail\<close> resolves with a message id
  or rejects with a thrown value, \<^verbatim>\<open>verify\<close> resolves or rejects (the code does not
  read the value it resolves with). A compiled Handlebars template is a function of the
  context that returns the html or throws.
\<close>

record Env =
  EMAIL_CONFIG :: EmailConfig
  transporter_sendMail :: "SendMailOptions \<Rightarrow> thrown + string"
  transporter_verify :: "thrown + unit"

type_synonym 'c HandlebarsTemplateDelegate = "'c \<Rightarrow> thrown + string"

text \<open>
  The effects the claims speak about are recorded in a trace, in the order in which the
  code starts them: a call of the transport's \<^verbatim>\<open>sendMail\<close>, a call of its
  \<^verbatim>\<open>verify\<close>, and a \<^verbatim>\<open>setTimeout\<close> suspension with its delay argument. Console
  logging is not recorded.
\<close>

datatype event = SendMail SendMailOptions | Verify | SetTimeout int

section \<open>EmailService (services/emailService.ts)\<close>

record 'c EmailService =
  templates :: "(string \<times> 'c HandlebarsTemplateDelegate) list"
  templateCache :: "(string \<times> string) list"

text \<open>
  The file system as \<^verbatim>\<open>loadTemplates\<close> sees it: the directory listing and the file
  contents, each of which may throw.
\<close>

record FileSystem =
  templatesDir :: string
  readdirSync :: "string \<Rightarrow> thrown + string list"
  readFileSync :: "string \<Rightarrow> thrown + string"

definition path_join :: "string \<Rightarrow> string \<Rightarrow> string" where
  "path_join dir file = dir @ ''/'' @ file"

text \<open>
  The body of \<^verbatim>\<open>templateFiles.forEach\<close>. Both maps are JavaScript \<^verbatim>\<open>Map\<close>s, which
  keep insertion order and overwrite in place: \<^const>\<open>AList.update\<close>. An exception of
  \<^verbatim>\<open>readFileSync\<close> leaves the loop with the entries stored so far.
  \<^verbatim>\<open>Handlebars.compile\<close> compiles lazily: on a string it returns the template function
  without throwing, so it is a total parameter here.
\<close>

fun loadTemplates_forEach ::
  "FileSystem \<Rightarrow> (string \<Rightarrow> 'c HandlebarsTemplateDelegate) \<Rightarrow> string list \<Rightarrow>
   'c EmailService \<Rightarrow> thrown option \<times> 'c EmailService" where
  "loadTemplates_forEach fs compile [] svc = (None, svc)"
| "loadTemplates_forEach fs compile (file # files) svc =
     (if endsWith file ''.hbs'' then
        (let templateName = replace_first file ''.hbs'' [];
             templatePath = path_join (templatesDir fs) file
         in case readFileSync fs templatePath of
              Inl e \<Rightarrow> (Some e, svc)
            | Inr templateContent \<Rightarrow>
                loadTemplates_forEach fs compile files
                  (svc\<lparr>templateCache :=
                         AList.update templateName templateContent (templateCache svc),
                       templates :=
                         AList.update templateName (compile templateContent) (templates svc)\<rparr>))
      else loadTemplates_forEach fs compile files svc)"

definition loadTemplates ::
  "FileSystem \<Rightarrow> (string \<Rightarrow> 'c HandlebarsTemplateDelegate) \<Rightarrow> 'c EmailService \<Rightarrow>
   'c EmailService" where
  "loadTemplates fs compile svc =
     (case readdirSync fs (templatesDir fs) of
        Inl e \<Rightarrow> svc
      | Inr templateFiles \<Rightarrow> snd (loadTemplates_forEach fs compile templateFiles svc))"

text \<open>The constructor: both maps start empty, then \<^verbatim>\<open>loadTemplates\<close> runs.\<close>

definition EmailService_new ::
  "FileSystem \<Rightarrow> (string \<Rightarrow> 'c HandlebarsTemplateDelegate) \<Rightarrow> 'c EmailService" where
  "EmailService_new fs compile = loadTemplates fs compile \<lparr>templates = [], templateCache = []\<rparr>"

definition notFoundMessage :: "string \<Rightarrow> string" where
  "notFoundMessage name = ''Template '' @ [CHR 0x27] @ name @ [CHR 0x27] @ '' not found''"

text \<open>
  The \<^verbatim>\<open>try\<close> block of \<^verbatim>\<open>EmailService.sendEmail\<close>: \<^verbatim>\<open>Inl\<close> is a value thrown inside
  it (the missing template, the template function, the transport).
\<close>

definition EmailService_sendEmail_try ::
  "Env \<Rightarrow> 'c EmailService \<Rightarrow> 'c EmailData \<Rightarrow> event list \<Rightarrow>
   (thrown + EmailResult) \<times> event list" where
  "EmailService_sendEmail_try env svc d tr =
     (case map_of (templates svc) (template d) of
        None \<Rightarrow> (Inl (Error (notFoundMessage (template d))), tr)
      | Some tmpl \<Rightarrow>
          (case tmpl (ctx d) of
             Inl e \<Rightarrow> (Inl e, tr)
           | Inr htmlContent \<Rightarrow>
               (let mailOptions0 =
                      \<lparr>mail_from = config_from (EMAIL_CONFIG env),
                       mail_to = to d,
                       mail_subject = subject d,
                       mail_html = htmlContent,
                       mail_attachments = attachments d,
                       mail_replyTo = None\<rparr>;
                    mailOptions =
                      (if truthy (config_replyTo (EMAIL_CONFIG env))
                       then mailOptions0\<lparr>mail_replyTo := config_replyTo (EMAIL_CONFIG env)\<rparr>
                       else mailOptions0)
                in case transporter_sendMail env mailOptions of
                     Inl e \<Rightarrow> (Inl e, tr @ [SendMail mailOptions])
                   | Inr mid \<Rightarrow>
                       (Inr \<lparr>success = True, messageId = Some mid, error = None\<rparr>,
                        tr @ [SendMail mailOptions]))))"

text \<open>\<^verbatim>\<open>EmailService.sendEmail\<close>: the \<^verbatim>\<open>catch\<close> clause turns every thrown value into
  a failed result.\<close>

definition EmailService_sendEmail ::
  "Env \<Rightarrow> 'c EmailService \<Rightarrow> 'c EmailData \<Rightarrow> event list \<Rightarrow> EmailResult \<times> event list" where
  "EmailService_sendEmail env svc d tr =
     (case EmailService_sendEmail_try env svc d tr of
        (Inr result, tr') \<Rightarrow> (result, tr')
      | (Inl e, tr') \<Rightarrow>
          (\<lparr>success = False, messageId = None, error = Some (errorText e)\<rparr>, tr'))"

text \<open>\<^verbatim>\<open>EmailService.verifyConnection\<close>\<close>

definition EmailService_verifyConnection :: "Env \<Rightarrow> event list \<Rightarrow> bool \<times> event list" where
  "EmailService_verifyConnection env tr =
     (case transporter_verify env of
        Inr _ \<Rightarrow> (True, tr @ [Verify])
      | Inl e \<Rightarrow> (False, tr @ [Verify]))"

definition getAvailableTemplates :: "'c EmailService \<Rightarrow> string list" where
  "getAvailableTemplates svc = map fst (templates svc)"

definition getTemplateContent :: "'c EmailService \<Rightarrow> string \<Rightarrow> string option" where
  "getTemplateContent svc templateName = map_of (templateCache svc) templateName"

text \<open>
  The other methods of the class. \<^verbatim>\<open>sendWelcomeEmail\<close>, \<^verbatim>\<open>sendPasswordResetEmail\<close>
  and \<^verbatim>\<open>sendNotificationEmail\<close> build a context object from their arguments and
  call \<^verbatim>\<open>this.sendEmail\<close> with a fixed template name; the context type being a
  parameter, the object they build is passed in. \<^verbatim>\<open>sendCustomEmail\<close> sends given
  html without a template.
\<close>

definition EmailService_sendWelcomeEmail ::
  "Env \<Rightarrow> 'c EmailService \<Rightarrow> string \<Rightarrow> 'c \<Rightarrow> event list \<Rightarrow> EmailResult \<times> event list" where
  "EmailService_sendWelcomeEmail env svc email templateContext tr =
     EmailService_sendEmail env svc
       \<lparr>to = Single email,
        subject = ''Welcome to AdminFront! '' @ [CHR 0xF0, CHR 0x9F, CHR 0x8E, CHR 0x89],
        template = ''welcome'', ctx = templateContext, attachments = None\<rparr> tr"

definition EmailService_sendPasswordResetEmail ::
  "Env \<Rightarrow> 'c EmailService \<Rightarrow> string \<Rightarrow> 'c \<Rightarrow> event list \<Rightarrow> EmailResult \<times> event list" where
  "EmailService_sendPasswordResetEmail env svc email templateContext tr =
     EmailService_sendEmail env svc
       \<lparr>to = Single email, subject = ''Password Reset Request - AdminFront'',
        template = ''password-reset'', ctx = templateContext, attachments = None\<rparr> tr"

definition EmailService_sendNotificationEmail ::
  "Env \<Rightarrow> 'c EmailService \<Rightarrow> string \<Rightarrow> string \<Rightarrow> 'c \<Rightarrow> event list \<Rightarrow>
   EmailResult \<times> event list" where
  "EmailService_sendNotificationEmail env svc email notificationSubject templateContext tr =
     EmailService_sendEmail env svc
       \<lparr>to = Single email, subject = notificationSubject, template = ''notification'',
        ctx = templateContext, attachments = None\<rparr> tr"

definition EmailService_sendCustomEmail ::
  "Env \<Rightarrow> recipients \<Rightarrow> string \<Rightarrow> string \<Rightarrow> attachment list option \<Rightarrow> event list \<Rightarrow>
   EmailResult \<times> event list" where
  "EmailService_sendCustomEmail env recipient subj htmlContent atts tr =
     (let mailOptions0 =
            \<lparr>mail_from = config_from (EMAIL_CONFIG env), mail_to = recipient,
             mail_subject = subj, mail_html = htmlContent, mail_attachments = atts,
             mail_replyTo = None\<rparr>;
          mailOptions =
            (if truthy (config_replyTo (EMAIL_CONFIG env))
             then mailOptions0\<lparr>mail_replyTo := config_replyTo (EMAIL_CONFIG env)\<rparr>
             else mailOptions0)
      in case transporter_sendMail env mailOptions of
           Inl e \<Rightarrow>
             (\<lparr>success = False, messageId = None, error = Some (errorText e)\<rparr>,
              tr @ [SendMail mailOptions])
         | Inr mid \<Rightarrow>
             (\<lparr>success = True, messageId = Some mid, error = None\<rparr>,
              tr @ [SendMail mailOptions]))"

text \<open>
  The service object over time: the constructor, then any sequence of calls of its
  methods. A call takes the object and the trace and returns both; no method assigns
  \<^verbatim>\<open>this.templates\<close> or \<^verbatim>\<open>this.templateCache\<close>, and the two getters have no
  effect. The values the methods return are defined above and not kept here.
\<close>

datatype 'c method_call =
    Call_sendEmail "'c EmailData"
  | Call_sendWelcomeEmail string 'c
  | Call_sendPasswordResetEmail string 'c
  | Call_sendNotificationEmail string string 'c
  | Call_sendCustomEmail recipients string string "attachment list option"
  | Call_verifyConnection
  | Call_getAvailableTemplates
  | Call_getTemplateContent string

fun EmailService_call ::
  "Env \<Rightarrow> 'c EmailService \<times> event list \<Rightarrow> 'c method_call \<Rightarrow> 'c EmailService \<times> event list" where
  "EmailService_call env (svc, tr) (Call_sendEmail d) =
     (svc, snd (EmailService_sendEmail env svc d tr))"
| "EmailService_call env (svc, tr) (Call_sendWelcomeEmail email templateContext) =
     (svc, snd (EmailService_sendWelcomeEmail env svc email templateContext tr))"
| "EmailService_call env (svc, tr) (Call_sendPasswordResetEmail email templateContext) =
     (svc, snd (EmailService_sendPasswordResetEmail env svc email templateContext tr))"
| "EmailService_call env (svc, tr) (Call_sendNotificationEmail email subj templateContext) =
     (svc, snd (EmailService_sendNotificationEmail env svc email subj templateContext tr))"
| "EmailService_call env (svc, tr) (Call_sendCustomEmail recipient subj html atts) =
     (svc, snd (EmailService_sendCustomEmail env recipient subj html atts tr))"
| "EmailService_call env (svc, tr) Call_verifyConnection =
     (svc, snd (EmailService_verifyConnection env tr))"
| "EmailService_call env (svc, tr) Call_getAvailableTemplates = (svc, tr)"
| "EmailService_call env (svc, tr) (Call_getTemplateContent templateName) = (svc, tr)"

definition EmailService_run ::
  "Env \<Rightarrow> FileSystem \<Rightarrow> (string \<Rightarrow> 'c HandlebarsTemplateDelegate) \<Rightarrow> 'c method_call list \<Rightarrow>
   'c EmailService \<times> event list" where
  "EmailService_run env fs compile cs =
     foldl (EmailService_call env) (EmailService_new fs compile, []) cs"

section \<open>EmailController (controllers/EmailController.ts)\<close>

text \<open>
  \<^verbatim>\<open>EmailController.sendEmail\<close> copies the request into an \<^verbatim>\<open>EmailData\<close> and awaits
  the service. The service returns its failures as data, so no statement of the
  \<^verbatim>\<open>try\<close> block throws and the rethrowing \<^verbatim>\<open>catch\<close> clause is never entered.
\<close>

definition EmailController_sendEmail ::
  "Env \<Rightarrow> 'c EmailService \<Rightarrow> 'c EmailSendRequest \<Rightarrow> event list \<Rightarrow>
   EmailResult \<times> event list" where
  "EmailController_sendEmail env svc request tr =
     EmailService_sendEmail env svc
       \<lparr>to = to request, subject = subject request, template = template request,
        ctx = ctx request, attachments = attachments request\<rparr> tr"

text \<open>
  \<^verbatim>\<open>batch.map((email) => this.sendEmail(email))\<close> followed by \<^verbatim>\<open>Promise.all\<close>: the
  sends of a batch are started in array order (each call runs up to its transport call
  before the next one starts), and \<^verbatim>\<open>Promise.all\<close> delivers the results in array
  order whatever the order in which they complete.
\<close>

fun sendBatch ::
  "Env \<Rightarrow> 'c EmailService \<Rightarrow> 'c EmailSendRequest list \<Rightarrow> event list \<Rightarrow>
   EmailResult list \<times> event list" where
  "sendBatch env svc [] tr = ([], tr)"
| "sendBatch env svc (email # batch) tr =
     (let (result, tr1) = EmailController_sendEmail env svc email tr;
          (batchResults, tr2) = sendBatch env svc batch tr1
      in (result # batchResults, tr2))"

text \<open>\<^verbatim>\<open>batchResults.forEach\<close>: push the result and count it.\<close>

fun countResults ::
  "EmailResult list \<Rightarrow> EmailResult list \<times> nat \<times> nat \<Rightarrow> EmailResult list \<times> nat \<times> nat" where
  "countResults [] acc = acc"
| "countResults (result # rest) (rs, ok, bad) =
     countResults rest
       (rs @ [result], (if success result then ok + 1 else ok),
        (if success result then bad else bad + 1))"

text \<open>
  The \<^verbatim>\<open>for\<close> loop of \<^verbatim>\<open>sendBulkEmails\<close>. Nothing bounds the number of iterations
  when the step is negative, so the loop is a partial function: \<^const>\<open>None\<close> is a run
  that never returns.
\<close>

partial_function (option) sendBulkEmails_loop ::
  "Env \<Rightarrow> 'c EmailService \<Rightarrow> 'c EmailSendRequest list \<Rightarrow> int \<Rightarrow> int \<Rightarrow> int \<Rightarrow>
   EmailResult list \<times> nat \<times> nat \<Rightarrow> event list \<Rightarrow>
   ((EmailResult list \<times> nat \<times> nat) \<times> event list) option" where
  "sendBulkEmails_loop env svc ems bSize delay i acc tr =
     (if i < int (length ems) then
        (let batch = Array_slice i (i + bSize) ems;
             (batchResults, tr1) = sendBatch env svc batch tr;
             acc1 = countResults batchResults acc;
             tr2 = (if i + bSize < int (length ems) then tr1 @ [SetTimeout delay] else tr1)
         in sendBulkEmails_loop env svc ems bSize delay (i + bSize) acc1 tr2)
      else Some (acc, tr))"

declare sendBulkEmails_loop.simps [code]

definition sendBulkEmails ::
  "Env \<Rightarrow> 'c EmailService \<Rightarrow> 'c EmailBulkRequest \<Rightarrow> event list \<Rightarrow>
   (BulkSummary \<times> event list) option" where
  "sendBulkEmails env svc request tr =
     (let bSize = or_default (batchSize request) 10;
          delay = or_default (delayBetweenBatches request) 1000
      in case sendBulkEmails_loop env svc (emails request) bSize delay 0 ([], 0, 0) tr of
           None \<Rightarrow> None
         | Some ((rs, ok, bad), tr') \<Rightarrow>
             Some (\<lparr>total = length (emails request), successful = ok, failed = bad,
                    results = rs\<rparr>, tr'))"

text \<open>
  \<^verbatim>\<open>EmailController.verifyConnection\<close>: the service call cannot throw, so the
  controller returns what the service returns.
\<close>

definition EmailController_verifyConnection :: "Env \<Rightarrow> event list \<Rightarrow> bool \<times> event list" where
  "EmailController_verifyConnection env tr =
     (let (isConnected, tr') = EmailService_verifyConnection env tr in (isConnected, tr'))"


section \<open>Specification-side notions\<close>

text \<open>
  What one send produces, read off the source function: its result and the transport
  calls it adds to the trace.
\<close>

definition outcome :: "Env \<Rightarrow> 'c EmailService \<Rightarrow> 'c EmailSendRequest \<Rightarrow> EmailResult" where
  "outcome env svc e = fst (EmailController_sendEmail env svc e [])"

definition calls :: "Env \<Rightarrow> 'c EmailService \<Rightarrow> 'c EmailSendRequest \<Rightarrow> event list" where
  "calls env svc e = snd (EmailController_sendEmail env svc e [])"

text \<open>
  The partition in the specification's words: group \<open>k\<close> is
  \<open>sends[k * n : (k + 1) * n]\<close>, and there are as many groups as it takes to cover the
  list, the last one possibly shorter.
\<close>

definition groups :: "nat \<Rightarrow> 'a list \<Rightarrow> 'a list list" where
  "groups n xs = map (\<lambda>k. take n (drop (k * n) xs)) [0 ..< (length xs + n - 1) div n]"

text \<open>The groups one after the other with \<open>d\<close> between consecutive groups, and
  nothing after the last one.\<close>

fun between :: "'a \<Rightarrow> 'a list list \<Rightarrow> 'a list" where
  "between d [] = []"
| "between d [g] = g"
| "between d (g # g' # gs) = g @ [d] @ between d (g' # gs)"

definition is_delay :: "event \<Rightarrow> bool" where
  "is_delay ev = (case ev of SetTimeout ms \<Rightarrow> True | _ \<Rightarrow> False)"

section \<open>A concrete installation used for the closed instances\<close>

definition demo_env :: Env where
  "demo_env =
     \<lparr>EMAIL_CONFIG = \<lparr>config_from = ''noreply@adminfront.com'', config_replyTo = None\<rparr>,
      transporter_sendMail =
        (\<lambda>m. if mail_subject m = ''bounce'' then Inl (Error ''rejected'')
             else Inr (''id-'' @ mail_subject m)),
      transporter_verify = Inr ()\<rparr>"

definition demo_env_down :: Env where
  "demo_env_down = demo_env\<lparr>transporter_verify := Inl (Error ''ECONNREFUSED'')\<rparr>"

definition demo_fs :: FileSystem where
  "demo_fs =
     \<lparr>templatesDir = ''src/templates/emails'',
      readdirSync = (\<lambda>dir. Inr [''welcome.hbs'', ''README.md'']),
      readFileSync = (\<lambda>p. Inr ''Hello '')\<rparr>"

definition demo_compile :: "string \<Rightarrow> string HandlebarsTemplateDelegate" where
  "demo_compile templateContent = (\<lambda>c. Inr (templateContent @ c))"

definition demo_service :: "string EmailService" where
  "demo_service = EmailService_new demo_fs demo_compile"

definition demo_mail :: "string \<Rightarrow> string \<Rightarrow> string EmailSendRequest" where
  "demo_mail name s =
     \<lparr>to = Single ''a@example.com'', subject = s, template = name, ctx = ''Ann'',
      attachments = None\<rparr>"

definition demo_sent :: "string \<Rightarrow> event" where
  "demo_sent s =
     SendMail \<lparr>mail_from = ''noreply@adminfront.com'', mail_to = Single ''a@example.com'',
               mail_subject = s, mail_html = ''Hello Ann'', mail_attachments = None,
               mail_replyTo = None\<rparr>"

definition demo_ok :: "string \<Rightarrow> EmailResult" where
  "demo_ok s = \<lparr>success = True, messageId = Some (''id-'' @ s), error = None\<rparr>"

definition demo_request :: "string EmailBulkRequest" where
  "demo_request =
     \<lparr>emails = [demo_mail ''welcome'' ''a'', demo_mail ''nope'' ''b'',
                demo_mail ''welcome'' ''bounce''],
      batchSize = Some 2, delayBetweenBatches = Some 250\<rparr>"

definition demo_summary :: BulkSummary where
  "demo_summary =
     \<lparr>total = 3, successful = 1, failed = 2,
      results = [demo_ok ''a'',
        \<lparr>success = False, messageId = None, error = Some (notFoundMessage ''nope'')\<rparr>,
        \<lparr>success = False, messageId = None, error = Some ''rejected''\<rparr>]\<rparr>"

definition demo_seven :: "string EmailBulkRequest" where
  "demo_seven =
     \<lparr>emails = map (demo_mail ''welcome'') [''m1'', ''m2'', ''m3'', ''m4'', ''m5'', ''m6'', ''m7''],
      batchSize = Some 3, delayBetweenBatches = Some 250\<rparr>"

definition demo_eleven :: "string EmailBulkRequest" where
  "demo_eleven =
     \<lparr>emails = map (demo_mail ''welcome'')
        [''m1'', ''m2'', ''m3'', ''m4'', ''m5'', ''m6'', ''m7'', ''m8'', ''m9'', ''m10'', ''m11''],
      batchSize = Some 0, delayBetweenBatches = Some 250\<rparr>"

text \<open>A template whose source does not parse: Handlebars compiles on first use, so
  \<^verbatim>\<open>Handlebars.compile\<close> returns a function and that function throws.\<close>

definition demo_compile_lazy :: "string \<Rightarrow> string HandlebarsTemplateDelegate" where
  "demo_compile_lazy templateContent = (\<lambda>c. Inl (Error ''Parse error on line 1''))"

definition demo_calls :: "string method_call list" where
  "demo_calls =
     [Call_sendEmail (demo_mail ''welcome'' ''a''), Call_verifyConnection,
      Call_sendWelcomeEmail ''b@example.com'' ''Bob'', Call_getTemplateContent ''nope'',
      Call_sendCustomEmail (Single ''c@example.com'') ''hi'' ''<p>hi</p>'' None]"

section \<open>The loop of sendBulkEmails in closed form\<close>

lemma Array_slice_pos:
  "0 \<le> i \<Longrightarrow> 0 < b \<Longrightarrow> Array_slice i (i + b) xs = take (nat b) (drop (nat i) xs)"
  unfolding Array_slice_def Let_def
  by (cases "i \<le> int (length xs)") (auto simp: min_def max_def)

lemma sendEmail_trace:
  "EmailController_sendEmail env svc e tr = (outcome env svc e, tr @ calls env svc e)"
  by (simp add: outcome_def calls_def EmailController_sendEmail_def EmailService_sendEmail_def
      EmailService_sendEmail_try_def Let_def split: option.splits sum.splits)

lemma sendBatch_eq:
  "sendBatch env svc batch tr =
     (map (outcome env svc) batch, tr @ concat (map (calls env svc) batch))"
  by (induction batch arbitrary: tr) (simp_all add: sendEmail_trace)

lemma countResults_eq:
  "countResults rs (acc, ok, bad) =
     (acc @ rs, ok + length (filter success rs), bad + length (filter (\<lambda>r. \<not> success r) rs))"
  by (induction rs arbitrary: acc ok bad) auto

lemma countResults_append:
  "countResults (xs @ ys) acc = countResults ys (countResults xs acc)"
  by (induction xs arbitrary: acc) (auto simp: split_paired_all)

lemma groups_Nil [simp]: "groups n [] = []"
  by (cases n) (simp_all add: groups_def)

lemma ngroups_step:
  assumes "0 < n" "0 < len"
  shows "(len + n - 1) div n = Suc ((len - n + n - 1) div n)"
proof -
  define m where "m = len - 1"
  have l: "len + n - 1 = m + n" using assms(2) by (simp add: m_def)
  have lhs: "(len + n - 1) div n = Suc (m div n)"
    unfolding l using assms(1) div_add_self2 [of n m] by simp
  show ?thesis
  proof (cases "n \<le> len")
    case True
    then have "len - n + n - 1 = m" by (simp add: m_def)
    then show ?thesis using lhs by simp
  next
    case False
    then have "m < n" and "len - n + n - 1 < n"
      using assms by (simp_all add: m_def)
    then have "m div n = 0" and "(len - n + n - 1) div n = 0"
      by simp_all
    then show ?thesis using lhs by simp
  qed
qed

lemma groups_step:
  assumes "0 < n" "xs \<noteq> []"
  shows "groups n xs = take n xs # groups n (drop n xs)"
proof -
  define k where "k = (length xs - n + n - 1) div n"
  have len: "0 < length xs" using assms by simp
  have k: "(length xs + n - 1) div n = Suc k"
    unfolding k_def using ngroups_step [OF assms(1) len] .
  have upt: "[0..<Suc k] = 0 # map Suc [0..<k]"
    by (simp add: upt_conv_Cons map_Suc_upt del: upt_Suc)
  have dr: "drop (Suc i * n) xs = drop (i * n) (drop n xs)" for i
    by (simp add: add.commute)
  have tl: "map (\<lambda>i. take n (drop (i * n) xs)) (map Suc [0..<k]) =
            map (\<lambda>i. take n (drop (i * n) (drop n xs))) [0..<k]"
    unfolding map_map comp_def dr ..
  have "groups n xs = take n (drop (0 * n) xs) # map (\<lambda>i. take n (drop (i * n) xs)) (map Suc [0..<k])"
    unfolding groups_def k upt list.map ..
  also have "\<dots> = take n xs # groups n (drop n xs)"
    by (simp only: tl) (simp only: groups_def length_drop k_def mult_0 drop_0)
  finally show ?thesis .
qed

lemma between_Cons: "between d (g # gs) = g @ (if gs = [] then [] else d # between d gs)"
  by (cases gs) simp_all

lemma groups_eq_Nil: "0 < n \<Longrightarrow> groups n xs = [] \<longleftrightarrow> xs = []"
  using groups_step [of n xs] by (cases "xs = []") simp_all

lemma loop_pos:
  assumes "0 < b" "0 \<le> i"
  shows "sendBulkEmails_loop env svc ems b d i acc tr =
           Some (countResults (map (outcome env svc) (drop (nat i) ems)) acc,
                 tr @ between (SetTimeout d)
                        (map (\<lambda>g. concat (map (calls env svc) g)) (groups (nat b) (drop (nat i) ems))))"
  using assms(2)
proof (induction "length ems - nat i" arbitrary: i acc tr rule: less_induct)
  case less
  show ?case
  proof (cases "i < int (length ems)")
    case False
    then have "drop (nat i) ems = []" by simp
    then show ?thesis using False
      by (subst sendBulkEmails_loop.simps) simp
  next
    case True
    define rest where "rest = drop (nat i) ems"
    have rest_ne: "rest \<noteq> []" using True less.prems by (simp add: rest_def)
    have next_i: "drop (nat (i + b)) ems = drop (nat b) rest"
      using less.prems assms(1) by (simp add: rest_def nat_add_distrib add.commute)
    have cond: "i + b < int (length ems) \<longleftrightarrow> drop (nat b) rest \<noteq> []"
      using less.prems assms(1) by (auto simp: rest_def)
    have lt: "length ems - nat (i + b) < length ems - nat i"
      using True less.prems assms(1) by linarith
    have ih: "sendBulkEmails_loop env svc ems b d (i + b) acc' tr' =
           Some (countResults (map (outcome env svc) (drop (nat b) rest)) acc',
                 tr' @ between (SetTimeout d)
                        (map (\<lambda>g. concat (map (calls env svc) g)) (groups (nat b) (drop (nat b) rest))))"
      for acc' tr'
      using less.hyps [OF lt, of acc' tr'] less.prems assms(1) by (simp add: next_i)
    have g: "groups (nat b) rest = take (nat b) rest # groups (nat b) (drop (nat b) rest)"
      using groups_step [of "nat b" rest] assms(1) rest_ne by simp
    have split: "map (outcome env svc) rest =
        map (outcome env svc) (take (nat b) rest) @ map (outcome env svc) (drop (nat b) rest)"
      by (simp flip: map_append)
    show ?thesis
      apply (subst sendBulkEmails_loop.simps)
      apply (simp only: True if_True Let_def Array_slice_pos [OF less.prems assms(1)]
          sendBatch_eq prod.case ih)
      apply (fold rest_def)
      apply (subst split)
      apply (simp only: countResults_append g list.map between_Cons cond)
      apply (cases "drop (nat b) rest = []")
      using assms(1) apply (simp_all add: groups_eq_Nil)
      done
  qed
qed


lemma loop_nonpos_aux:
  assumes "sendBulkEmails_loop env svc ems b d i acc tr = Some y"
  shows "\<not> (b \<le> 0 \<and> i < int (length ems))"
proof (rule sendBulkEmails_loop.raw_induct
    [where P = "\<lambda>env svc ems b d i acc tr y. \<not> (b \<le> 0 \<and> i < int (length ems))", OF _ assms])
  fix loop :: "Env \<Rightarrow> 'a EmailService \<Rightarrow> 'a EmailData list \<Rightarrow> int \<Rightarrow> int \<Rightarrow> int \<Rightarrow>
      EmailResult list \<times> nat \<times> nat \<Rightarrow> event list \<Rightarrow>
      ((EmailResult list \<times> nat \<times> nat) \<times> event list) option"
  fix env svc ems b d i acc tr y
  assume ih: "\<And>env svc ems b d i acc tr y.
      loop env svc ems b d i acc tr = Some y \<Longrightarrow> \<not> (b \<le> 0 \<and> i < int (length ems))"
  assume step: "(if i < int (length ems)
      then let batch = Array_slice i (i + b) ems;
               (batchResults, tr1) = sendBatch env svc batch tr;
               acc1 = countResults batchResults acc
           in Let (if i + b < int (length ems) then tr1 @ [SetTimeout d] else tr1)
               (loop env svc ems b d (i + b) acc1)
      else Some (acc, tr)) = Some y"
  show "\<not> (b \<le> 0 \<and> i < int (length ems))"
  proof
    assume a: "b \<le> 0 \<and> i < int (length ems)"
    with step obtain acc' tr' where "loop env svc ems b d (i + b) acc' tr' = Some y"
      by (auto simp: Let_def split: prod.splits if_splits)
    from ih [OF this] a show False by simp
  qed
qed

lemma loop_nonpos:
  "b \<le> 0 \<Longrightarrow> i < int (length ems) \<Longrightarrow> sendBulkEmails_loop env svc ems b d i acc tr = None"
  using loop_nonpos_aux [of env svc ems b d i acc tr] by (cases "sendBulkEmails_loop env svc ems b d i acc tr") auto

lemma loop_done:
  "\<not> i < int (length ems) \<Longrightarrow> sendBulkEmails_loop env svc ems b d i acc tr = Some (acc, tr)"
  by (subst sendBulkEmails_loop.simps) simp



lemma fst_sendEmail: "fst (EmailController_sendEmail env svc e t) = outcome env svc e"
  by (simp add: sendEmail_trace)

lemma length_filter_split:
  "length (filter P xs) + length (filter (\<lambda>x. \<not> P x) xs) = length xs"
  by (induction xs) simp_all

lemma sendBulkEmails_pos:
  assumes "0 < or_default (batchSize request) 10"
  shows "sendBulkEmails env svc request tr =
     Some (\<lparr>total = length (emails request),
            successful = length (filter success (map (outcome env svc) (emails request))),
            failed = length (filter (\<lambda>r. \<not> success r) (map (outcome env svc) (emails request))),
            results = map (outcome env svc) (emails request)\<rparr>,
           tr @ between (SetTimeout (or_default (delayBetweenBatches request) 1000))
                  (map (\<lambda>g. concat (map (calls env svc) g))
                     (groups (nat (or_default (batchSize request) 10)) (emails request))))"
  unfolding sendBulkEmails_def Let_def
  by (simp add: loop_pos [OF assms] countResults_eq)

lemma sendBulkEmails_empty:
  assumes "emails request = []"
  shows "sendBulkEmails env svc request tr =
     Some (\<lparr>total = 0, successful = 0, failed = 0, results = []\<rparr>, tr)"
  unfolding sendBulkEmails_def Let_def
  by (simp add: loop_done assms)

lemma sendBulkEmails_diverges:
  assumes "or_default (batchSize request) 10 \<le> 0" "emails request \<noteq> []"
  shows "sendBulkEmails env svc request tr = None"
  unfolding sendBulkEmails_def Let_def
  using assms by (simp add: loop_nonpos)

lemma sendBulkEmails_returns:
  assumes "sendBulkEmails env svc request tr = Some (summary, tr')"
  shows "summary =
     \<lparr>total = length (emails request),
      successful = length (filter success (map (outcome env svc) (emails request))),
      failed = length (filter (\<lambda>r. \<not> success r) (map (outcome env svc) (emails request))),
      results = map (outcome env svc) (emails request)\<rparr>"
proof (cases "0 < or_default (batchSize request) 10")
  case True
  from sendBulkEmails_pos [OF True, of env svc tr] assms show ?thesis by simp
next
  case False
  then have np: "or_default (batchSize request) 10 \<le> 0" by simp
  show ?thesis
  proof (cases "emails request = []")
    case True
    from sendBulkEmails_empty [OF True, of env svc tr] assms True show ?thesis by simp
  next
    case False
    from sendBulkEmails_diverges [OF np False, of env svc tr] assms show ?thesis by simp
  qed
qed

lemma demo_service_eq:
  "demo_service =
     \<lparr>templates = [(''welcome'', demo_compile ''Hello '')],
      templateCache = [(''welcome'', ''Hello '')]\<rparr>"
  by (simp add: demo_service_def EmailService_new_def loadTemplates_def demo_fs_def
      endsWith_def path_join_def Let_def)

lemma demo_outcome_ok:
  "s \<noteq> ''bounce'' \<Longrightarrow> EmailController_sendEmail demo_env demo_service (demo_mail ''welcome'' s) tr =
     (demo_ok s, tr @ [demo_sent s])"
  by (simp add: EmailController_sendEmail_def EmailService_sendEmail_def
      EmailService_sendEmail_try_def demo_service_eq demo_env_def demo_mail_def demo_sent_def
      demo_compile_def demo_ok_def truthy_def Let_def)

lemma demo_outcome_bounce:
  "EmailController_sendEmail demo_env demo_service (demo_mail ''welcome'' ''bounce'') tr =
     (\<lparr>success = False, messageId = None, error = Some ''rejected''\<rparr>, tr @ [demo_sent ''bounce''])"
  by (simp add: EmailController_sendEmail_def EmailService_sendEmail_def
      EmailService_sendEmail_try_def demo_service_eq demo_env_def demo_mail_def demo_sent_def
      demo_compile_def errorText_def truthy_def Let_def)

lemma demo_outcome_unknown:
  "EmailController_sendEmail demo_env demo_service (demo_mail ''nope'' s) tr =
     (\<lparr>success = False, messageId = None, error = Some (notFoundMessage ''nope'')\<rparr>, tr)"
  by (simp add: EmailController_sendEmail_def EmailService_sendEmail_def
      EmailService_sendEmail_try_def demo_service_eq demo_mail_def errorText_def)

lemmas demo_sends = demo_outcome_ok demo_outcome_bounce demo_outcome_unknown

lemma demo_run:
  "sendBulkEmails demo_env demo_service demo_request [] =
     Some (demo_summary, [demo_sent ''a'', SetTimeout 250, demo_sent ''bounce''])"
  by (simp add: demo_request_def demo_summary_def sendBulkEmails_def or_default_def sendBulkEmails_loop.simps Array_slice_def
      demo_sends demo_ok_def Let_def)

section \<open>The summary of a bulk send\<close>

text \<open>
  Claim C1. Whenever \<^verbatim>\<open>sendBulkEmails\<close> returns a summary, its \<open>total\<close> is the
  number of emails of the request, \<open>successful + failed\<close> equals \<open>total\<close>, and
  \<open>results\<close> has \<open>total\<close> entries.
\<close>

theorem sendBulkEmails_summary_counts:
  assumes "sendBulkEmails env svc request tr = Some (summary, tr')"
  shows "total summary = length (emails request) \<and>
         successful summary + failed summary = total summary \<and>
         length (results summary) = total summary"
  using length_filter_split [of success "map (outcome env svc) (emails request)"]
  by (simp add: sendBulkEmails_returns [OF assms])

theorem sendBulkEmails_summary_counts_witness:
  "sendBulkEmails demo_env demo_service demo_request [] =
     Some (demo_summary, [demo_sent ''a'', SetTimeout 250, demo_sent ''bounce'']) \<and>
   total demo_summary = length (emails demo_request) \<and>
   successful demo_summary + failed demo_summary = total demo_summary \<and>
   length (results demo_summary) = total demo_summary"
  using sendBulkEmails_summary_counts [OF demo_run] demo_run by simp

text \<open>
  Claim C2. Whenever \<^verbatim>\<open>sendBulkEmails\<close> returns, \<open>results\<close> has one entry per
  email of the request and entry \<open>i\<close> is the result that \<^verbatim>\<open>sendEmail\<close> produces
  for email \<open>i\<close>, at whatever point of the run it is sent (\<open>t\<close> is any trace). The
  order in which the sends of a batch complete does not enter: \<^verbatim>\<open>Promise.all\<close>
  delivers the results of a batch in the order of the batch.
\<close>

theorem sendBulkEmails_results_positional:
  assumes "sendBulkEmails env svc request tr = Some (summary, tr')"
  shows "results summary = map (\<lambda>e. fst (EmailController_sendEmail env svc e t)) (emails request) \<and>
         length (results summary) = length (emails request) \<and>
         (\<forall>i<length (emails request).
            results summary ! i = fst (EmailController_sendEmail env svc (emails request ! i) t))"
  by (simp add: sendBulkEmails_returns [OF assms] fst_sendEmail)

theorem sendBulkEmails_results_positional_witness:
  "sendBulkEmails demo_env demo_service demo_request [] =
     Some (demo_summary, [demo_sent ''a'', SetTimeout 250, demo_sent ''bounce'']) \<and>
   results demo_summary ! 0 =
     fst (EmailController_sendEmail demo_env demo_service (demo_mail ''welcome'' ''a'') []) \<and>
   results demo_summary ! 1 =
     fst (EmailController_sendEmail demo_env demo_service (demo_mail ''nope'' ''b'') []) \<and>
   results demo_summary ! 2 =
     fst (EmailController_sendEmail demo_env demo_service (demo_mail ''welcome'' ''bounce'') [])"
  using sendBulkEmails_results_positional [OF demo_run, of "[]"] demo_run
  by (simp add: demo_request_def)

section \<open>Groups and delays\<close>

lemma concat_groups:
  assumes "0 < n"
  shows "concat (groups n xs) = xs"
proof (induction "length xs" arbitrary: xs rule: less_induct)
  case less
  show ?case
  proof (cases "xs = []")
    case True
    then show ?thesis by simp
  next
    case False
    then have "length (drop n xs) < length xs" using assms by simp
    from less [OF this] show ?thesis
      by (simp add: groups_step [OF assms False])
  qed
qed

lemma length_groups: "length (groups n xs) = (length xs + n - 1) div n"
  by (simp add: groups_def)

lemma groups_index_bound:
  assumes "0 < (n::nat)"
  shows "k < (m + n - 1) div n \<longleftrightarrow> k * n < m"
proof -
  have "k < (m + n - 1) div n \<longleftrightarrow> Suc k \<le> (m + n - 1) div n" by auto
  also have "\<dots> \<longleftrightarrow> Suc k * n \<le> m + n - 1"
    using assms by (simp only: less_eq_div_iff_mult_less_eq)
  also have "\<dots> \<longleftrightarrow> k * n < m" using assms by auto
  finally show ?thesis .
qed

lemma groups_nth:
  assumes "k < length (groups n xs)"
  shows "groups n xs ! k = take n (drop (k * n) xs)"
  using assms by (simp add: groups_def)

lemma groups_nth_slice:
  assumes "0 < b" "k < length (groups (nat b) xs)"
  shows "groups (nat b) xs ! k = Array_slice (int k * b) ((int k + 1) * b) xs"
proof -
  have nn: "0 \<le> int k * b" using assms(1) by simp
  have e: "(int k + 1) * b = int k * b + b" by (simp add: algebra_simps)
  have n: "nat (int k * b) = k * nat b" using assms(1) by (simp add: nat_mult_distrib)
  show ?thesis
    unfolding e Array_slice_pos [OF nn assms(1)] n
    using assms(2) by (rule groups_nth)
qed

lemma groups_full:
  assumes "0 < n" "Suc k < length (groups n xs)"
  shows "length (groups n xs ! k) = n"
proof -
  have "Suc k * n < length xs"
    using assms groups_index_bound [OF assms(1), of "Suc k" "length xs"]
    by (simp add: length_groups)
  then have "n \<le> length xs - k * n" by simp
  moreover have "k < length (groups n xs)" using assms(2) by simp
  ultimately show ?thesis by (simp add: groups_nth)
qed

lemma groups_last:
  assumes "0 < n" "k < length (groups n xs)"
  shows "0 < length (groups n xs ! k) \<and> length (groups n xs ! k) \<le> n"
proof -
  have "k * n < length xs"
    using assms groups_index_bound [OF assms(1), of k "length xs"]
    by (simp add: length_groups)
  then show ?thesis using assms by (simp add: groups_nth)
qed

lemma calls_no_delay: "filter is_delay (calls env svc e) = []"
  by (simp add: calls_def EmailController_sendEmail_def EmailService_sendEmail_def
      EmailService_sendEmail_try_def is_delay_def Let_def split: option.splits sum.splits)

lemma batch_calls_no_delay: "filter is_delay (concat (map (calls env svc) g)) = []"
  by (induction g) (simp_all add: calls_no_delay)

lemma is_delay_SetTimeout: "is_delay (SetTimeout d)"
  by (simp add: is_delay_def)

lemma delays_between:
  "length (filter is_delay
     (between (SetTimeout d) (map (\<lambda>g. concat (map (calls env svc) g)) gs))) = length gs - 1"
proof (induction gs)
  case Nil
  then show ?case by simp
next
  case (Cons g gs)
  then show ?case
    by (cases gs) (simp_all add: batch_calls_no_delay is_delay_SetTimeout)
qed

lemma demo_seven_groups:
  "groups (nat 3) (emails demo_seven) =
     [map (demo_mail ''welcome'') [''m1'', ''m2'', ''m3''],
      map (demo_mail ''welcome'') [''m4'', ''m5'', ''m6''],
      map (demo_mail ''welcome'') [''m7'']]"
  by (simp add: demo_seven_def groups_step)

text \<open>
  Claim C3. With a positive \<open>batchSize = b\<close> the run returns, its results are those of
  the groups in order, and its trace is the transport calls of the groups in order with
  one \<^verbatim>\<open>setTimeout\<close> between consecutive groups and none after the last. The groups
  partition the emails: group \<open>k\<close> is \<^verbatim>\<open>emails.slice(k * b, (k + 1) * b)\<close>, is not
  empty, has exactly \<open>b\<close> elements unless it is the last one, which has at most \<open>b\<close>.
  The number of delays is the number of groups minus one. The instance after the
  theorem is the case of 7 emails and \<open>batchSize = 3\<close>: groups of sizes 3, 3, 1 and 2
  delays.
\<close>

theorem sendBulkEmails_batches:
  assumes "batchSize request = Some b" and "0 < b"
  shows "sendBulkEmails env svc request tr =
           Some (\<lparr>total = length (emails request),
                  successful = length (filter success (map (outcome env svc) (emails request))),
                  failed = length (filter (\<lambda>r. \<not> success r) (map (outcome env svc) (emails request))),
                  results = concat (map (map (outcome env svc)) (groups (nat b) (emails request)))\<rparr>,
                 tr @ between (SetTimeout (or_default (delayBetweenBatches request) 1000))
                        (map (\<lambda>g. concat (map (calls env svc) g))
                           (groups (nat b) (emails request)))) \<and>
         concat (groups (nat b) (emails request)) = emails request \<and>
         (\<forall>k<length (groups (nat b) (emails request)).
            groups (nat b) (emails request) ! k =
              Array_slice (int k * b) ((int k + 1) * b) (emails request) \<and>
            0 < length (groups (nat b) (emails request) ! k) \<and>
            (if Suc k < length (groups (nat b) (emails request))
             then length (groups (nat b) (emails request) ! k) = nat b
             else length (groups (nat b) (emails request) ! k) \<le> nat b)) \<and>
         length (filter is_delay
           (between (SetTimeout (or_default (delayBetweenBatches request) 1000))
              (map (\<lambda>g. concat (map (calls env svc) g)) (groups (nat b) (emails request))))) =
           length (groups (nat b) (emails request)) - 1"
proof -
  have eff: "or_default (batchSize request) 10 = b"
    using assms by (simp add: or_default_def)
  have pos: "0 < or_default (batchSize request) 10" using eff assms(2) by simp
  have n: "0 < nat b" using assms(2) by simp
  have c: "concat (groups (nat b) (emails request)) = emails request"
    using n by (rule concat_groups)
  have r: "concat (map (map (outcome env svc)) (groups (nat b) (emails request))) =
           map (outcome env svc) (emails request)"
    by (simp only: map_concat [symmetric] c)
  have run: "sendBulkEmails env svc request tr =
           Some (\<lparr>total = length (emails request),
                  successful = length (filter success (map (outcome env svc) (emails request))),
                  failed = length (filter (\<lambda>r. \<not> success r) (map (outcome env svc) (emails request))),
                  results = concat (map (map (outcome env svc)) (groups (nat b) (emails request)))\<rparr>,
                 tr @ between (SetTimeout (or_default (delayBetweenBatches request) 1000))
                        (map (\<lambda>g. concat (map (calls env svc) g))
                           (groups (nat b) (emails request))))"
    unfolding r using sendBulkEmails_pos [OF pos, of env svc tr] unfolding eff .
  have idx: "groups (nat b) (emails request) ! k =
              Array_slice (int k * b) ((int k + 1) * b) (emails request) \<and>
            0 < length (groups (nat b) (emails request) ! k) \<and>
            (if Suc k < length (groups (nat b) (emails request))
             then length (groups (nat b) (emails request) ! k) = nat b
             else length (groups (nat b) (emails request) ! k) \<le> nat b)"
    if "k < length (groups (nat b) (emails request))" for k
    using groups_nth_slice [OF assms(2) that] groups_last [OF n that]
      groups_full [OF n, of k "emails request"] by simp
  show ?thesis
    using run c idx delays_between by blast
qed

theorem sendBulkEmails_batches_witness:
  "batchSize demo_seven = Some 3 \<and> (0::int) < 3 \<and>
   map length (groups (nat 3) (emails demo_seven)) = [3, 3, 1] \<and>
   sendBulkEmails demo_env demo_service demo_seven [] =
     Some (\<lparr>total = 7, successful = 7, failed = 0,
            results = map demo_ok [''m1'', ''m2'', ''m3'', ''m4'', ''m5'', ''m6'', ''m7'']\<rparr>,
           [demo_sent ''m1'', demo_sent ''m2'', demo_sent ''m3'', SetTimeout 250,
            demo_sent ''m4'', demo_sent ''m5'', demo_sent ''m6'', SetTimeout 250,
            demo_sent ''m7'']) \<and>
   length (filter is_delay
     [demo_sent ''m1'', demo_sent ''m2'', demo_sent ''m3'', SetTimeout 250,
      demo_sent ''m4'', demo_sent ''m5'', demo_sent ''m6'', SetTimeout 250,
      demo_sent ''m7'']) = 2"
proof -
  have h1: "batchSize demo_seven = Some 3" by (simp add: demo_seven_def)
  have h2: "(0::int) < 3" by simp
  have d: "or_default (delayBetweenBatches demo_seven) 1000 = 250"
    by (simp add: demo_seven_def or_default_def)
  have e: "emails demo_seven =
      map (demo_mail ''welcome'') [''m1'', ''m2'', ''m3'', ''m4'', ''m5'', ''m6'', ''m7'']"
    by (simp add: demo_seven_def)
  show ?thesis
    using sendBulkEmails_batches [OF h1 h2, of demo_env demo_service "[]"] h1
    unfolding demo_seven_groups d
    by (simp add: e outcome_def calls_def demo_sends demo_ok_def)
qed

section \<open>A single send\<close>

text \<open>
  Claim C4. When the template of a request is not among the loaded templates,
  \<^verbatim>\<open>EmailService.sendEmail\<close> returns a result with \<open>success = False\<close> and the
  non-empty error text \<^verbatim>\<open>Template '...' not found\<close>, and the trace is unchanged: the
  transport is not called. Every value thrown inside the \<^verbatim>\<open>try\<close> block, on any
  failure path, comes back as such a failed result with the text of the thrown value;
  the function has no other way out, and the controller's \<^verbatim>\<open>sendEmail\<close> returns the
  same.
\<close>

theorem sendEmail_unknown_template:
  "(template d \<notin> set (getAvailableTemplates svc) \<longrightarrow>
      EmailService_sendEmail env svc d tr =
        (\<lparr>success = False, messageId = None, error = Some (notFoundMessage (template d))\<rparr>, tr) \<and>
      notFoundMessage (template d) \<noteq> []) \<and>
   (\<forall>e tr'. EmailService_sendEmail_try env svc d tr = (Inl e, tr') \<longrightarrow>
      EmailService_sendEmail env svc d tr =
        (\<lparr>success = False, messageId = None, error = Some (errorText e)\<rparr>, tr')) \<and>
   EmailController_sendEmail env svc d tr = EmailService_sendEmail env svc d tr"
proof -
  have n: "map_of (templates svc) (template d) = None"
    if "template d \<notin> set (getAvailableTemplates svc)"
    using that by (simp add: getAvailableTemplates_def map_of_eq_None_iff)
  have copy: "\<lparr>to = to d, subject = subject d, template = template d, ctx = ctx d,
         attachments = attachments d\<rparr> = d"
    by (cases d) simp
  have c: "EmailController_sendEmail env svc d tr = EmailService_sendEmail env svc d tr"
    unfolding EmailController_sendEmail_def copy ..
  show ?thesis
    using n
    by (auto simp: c EmailService_sendEmail_def EmailService_sendEmail_try_def errorText_def
        notFoundMessage_def)
qed

theorem sendEmail_unknown_template_witness:
  "template (demo_mail ''nope'' ''b'') \<notin> set (getAvailableTemplates demo_service) \<and>
   EmailService_sendEmail demo_env demo_service (demo_mail ''nope'' ''b'') [] =
     (\<lparr>success = False, messageId = None, error = Some (notFoundMessage ''nope'')\<rparr>, []) \<and>
   EmailService_sendEmail_try demo_env demo_service (demo_mail ''welcome'' ''bounce'') [] =
     (Inl (Error ''rejected''), [demo_sent ''bounce'']) \<and>
   EmailService_sendEmail demo_env demo_service (demo_mail ''welcome'' ''bounce'') [] =
     (\<lparr>success = False, messageId = None, error = Some ''rejected''\<rparr>, [demo_sent ''bounce''])"
proof -
  have a: "template (demo_mail ''nope'' ''b'') \<notin> set (getAvailableTemplates demo_service)"
    by (simp add: getAvailableTemplates_def demo_service_eq demo_mail_def)
  have b: "EmailService_sendEmail_try demo_env demo_service (demo_mail ''welcome'' ''bounce'') [] =
     (Inl (Error ''rejected''), [demo_sent ''bounce''])"
    by (simp add: EmailService_sendEmail_try_def demo_service_eq demo_env_def demo_mail_def
        demo_sent_def demo_compile_def truthy_def Let_def)
  show ?thesis
    using a b
      sendEmail_unknown_template [of "demo_mail ''nope'' ''b''" demo_service demo_env "[]"]
      sendEmail_unknown_template [of "demo_mail ''welcome'' ''bounce''" demo_service demo_env "[]"]
    by (simp add: demo_mail_def errorText_def)
qed

section \<open>Non-positive batch sizes and the zero delay\<close>

text \<open>
  Claim C5 says that a request with \<open>batchSize \<le> 0\<close> is either sent as one batch of
  all its emails or rejected before any send. With \<open>batchSize = 0\<close> and eleven emails
  the code does neither: it returns a summary after eleven transport calls, made in two
  batches of ten and one with a delay between them, whereas \<open>batchSize = 11\<close> sends
  them without a delay, so the two runs differ.
\<close>

theorem sendBulkEmails_zero_batchSize_counterexample:
  "sendBulkEmails demo_env demo_service demo_eleven [] =
     Some (\<lparr>total = 11, successful = 11, failed = 0,
            results = map demo_ok [''m1'', ''m2'', ''m3'', ''m4'', ''m5'', ''m6'', ''m7'', ''m8'',
              ''m9'', ''m10'', ''m11'']\<rparr>,
           map demo_sent [''m1'', ''m2'', ''m3'', ''m4'', ''m5'', ''m6'', ''m7'', ''m8'', ''m9'',
              ''m10''] @ [SetTimeout 250, demo_sent ''m11'']) \<and>
   sendBulkEmails demo_env demo_service (demo_eleven\<lparr>batchSize := Some 11\<rparr>) [] =
     Some (\<lparr>total = 11, successful = 11, failed = 0,
            results = map demo_ok [''m1'', ''m2'', ''m3'', ''m4'', ''m5'', ''m6'', ''m7'', ''m8'',
              ''m9'', ''m10'', ''m11'']\<rparr>,
           map demo_sent [''m1'', ''m2'', ''m3'', ''m4'', ''m5'', ''m6'', ''m7'', ''m8'', ''m9'',
              ''m10'', ''m11'']) \<and>
   sendBulkEmails demo_env demo_service demo_eleven [] \<noteq>
     sendBulkEmails demo_env demo_service (demo_eleven\<lparr>batchSize := Some 11\<rparr>) []"
proof -
  have zero: "sendBulkEmails demo_env demo_service demo_eleven [] =
     Some (\<lparr>total = 11, successful = 11, failed = 0,
            results = map demo_ok [''m1'', ''m2'', ''m3'', ''m4'', ''m5'', ''m6'', ''m7'', ''m8'',
              ''m9'', ''m10'', ''m11'']\<rparr>,
           map demo_sent [''m1'', ''m2'', ''m3'', ''m4'', ''m5'', ''m6'', ''m7'', ''m8'', ''m9'',
              ''m10''] @ [SetTimeout 250, demo_sent ''m11''])"
    by (simp add: demo_eleven_def sendBulkEmails_def or_default_def sendBulkEmails_loop.simps
        Array_slice_def demo_sends demo_ok_def Let_def)
  have single: "sendBulkEmails demo_env demo_service (demo_eleven\<lparr>batchSize := Some 11\<rparr>) [] =
     Some (\<lparr>total = 11, successful = 11, failed = 0,
            results = map demo_ok [''m1'', ''m2'', ''m3'', ''m4'', ''m5'', ''m6'', ''m7'', ''m8'',
              ''m9'', ''m10'', ''m11'']\<rparr>,
           map demo_sent [''m1'', ''m2'', ''m3'', ''m4'', ''m5'', ''m6'', ''m7'', ''m8'', ''m9'',
              ''m10'', ''m11''])"
    by (simp add: demo_eleven_def sendBulkEmails_def or_default_def sendBulkEmails_loop.simps
        Array_slice_def demo_sends demo_ok_def Let_def)
  have "sendBulkEmails demo_env demo_service demo_eleven [] \<noteq>
     sendBulkEmails demo_env demo_service (demo_eleven\<lparr>batchSize := Some 11\<rparr>) []"
    unfolding zero single by simp
  with zero single show ?thesis by simp
qed

text \<open>
  Claim C5 as the code has it: \<open>batchSize = 0\<close> is falsy, so
  \<^verbatim>\<open>request.batchSize || 10\<close> takes the default. The run is the run with
  \<open>batchSize = 10\<close> and the run with \<open>batchSize\<close> absent, and it returns: the request
  is never rejected.
\<close>

theorem sendBulkEmails_zero_batchSize:
  "sendBulkEmails env svc (request\<lparr>batchSize := Some 0\<rparr>) tr =
     sendBulkEmails env svc (request\<lparr>batchSize := Some 10\<rparr>) tr \<and>
   sendBulkEmails env svc (request\<lparr>batchSize := Some 0\<rparr>) tr =
     sendBulkEmails env svc (request\<lparr>batchSize := None\<rparr>) tr \<and>
   sendBulkEmails env svc (request\<lparr>batchSize := Some 0\<rparr>) tr \<noteq> None"
proof -
  have p: "0 < or_default (batchSize (request\<lparr>batchSize := Some 0\<rparr>)) 10"
    by (simp add: or_default_def)
  have "sendBulkEmails env svc (request\<lparr>batchSize := Some 0\<rparr>) tr \<noteq> None"
    by (simp only: sendBulkEmails_pos [OF p]) simp
  moreover have "sendBulkEmails env svc (request\<lparr>batchSize := Some 0\<rparr>) tr =
     sendBulkEmails env svc (request\<lparr>batchSize := Some 10\<rparr>) tr"
    by (simp add: sendBulkEmails_def or_default_def split: option.splits)
  moreover have "sendBulkEmails env svc (request\<lparr>batchSize := Some 0\<rparr>) tr =
     sendBulkEmails env svc (request\<lparr>batchSize := None\<rparr>) tr"
    by (simp add: sendBulkEmails_def or_default_def split: option.splits)
  ultimately show ?thesis by simp
qed

text \<open>
  Claim C6 says that every run of \<^verbatim>\<open>sendBulkEmails\<close> returns. With a negative
  \<open>batchSize\<close> and at least one email the loop index only decreases and stays below
  \<^verbatim>\<open>emails.length\<close>: the run with two emails and \<open>batchSize = -1\<close> never returns.
\<close>

theorem sendBulkEmails_negative_batchSize:
  "sendBulkEmails demo_env demo_service
     \<lparr>emails = [demo_mail ''welcome'' ''a'', demo_mail ''welcome'' ''b''],
      batchSize = Some (- 1), delayBetweenBatches = Some 250\<rparr> [] = None"
  by (rule sendBulkEmails_diverges) (simp_all add: or_default_def)

text \<open>
  Claim C7 says that a supplied delay of 0 is used as it is. The code evaluates
  \<^verbatim>\<open>request.delayBetweenBatches || 1000\<close>, and 0 is falsy: with two batches and a
  supplied delay of 0 the suspension between them is 1000.
\<close>

theorem sendBulkEmails_zero_delay:
  "sendBulkEmails demo_env demo_service
     \<lparr>emails = [demo_mail ''welcome'' ''a'', demo_mail ''welcome'' ''b''],
      batchSize = Some 1, delayBetweenBatches = Some 0\<rparr> [] =
   Some (\<lparr>total = 2, successful = 2, failed = 0, results = [demo_ok ''a'', demo_ok ''b'']\<rparr>,
         [demo_sent ''a'', SetTimeout 1000, demo_sent ''b''])"
  by (simp add: sendBulkEmails_def or_default_def sendBulkEmails_loop.simps
      Array_slice_def demo_sends demo_ok_def Let_def)

text \<open>
  Claim C8. With no emails \<^verbatim>\<open>sendBulkEmails\<close> returns the summary
  \<open>total = 0, successful = 0, failed = 0, results = []\<close>, whatever \<open>batchSize\<close> and
  delay are, and leaves the trace as it was: no transport call and no delay.
\<close>

theorem sendBulkEmails_no_emails:
  "sendBulkEmails env svc (request\<lparr>emails := []\<rparr>) tr =
     Some (\<lparr>total = 0, successful = 0, failed = 0, results = []\<rparr>, tr)"
  by (rule sendBulkEmails_empty) simp

section \<open>The connection check\<close>

text \<open>
  Claim C9. \<^verbatim>\<open>verifyConnection\<close> returns \<open>True\<close> when the transport's
  \<^verbatim>\<open>verify\<close> resolves and \<open>False\<close> when it throws; the thrown value goes no
  further. The controller returns what the service returns. The only effect is the one
  call of \<^verbatim>\<open>verify\<close>: every other event of the trace is as before.
\<close>

theorem verifyConnection_returns_boolean:
  "(\<forall>u. transporter_verify env = Inr u \<longrightarrow>
      EmailController_verifyConnection env tr = (True, tr @ [Verify])) \<and>
   (\<forall>e. transporter_verify env = Inl e \<longrightarrow>
      EmailController_verifyConnection env tr = (False, tr @ [Verify])) \<and>
   EmailController_verifyConnection env tr = EmailService_verifyConnection env tr \<and>
   filter (\<lambda>ev. ev \<noteq> Verify) (snd (EmailController_verifyConnection env tr)) =
     filter (\<lambda>ev. ev \<noteq> Verify) tr"
  by (simp add: EmailController_verifyConnection_def EmailService_verifyConnection_def
      split: sum.splits)

theorem verifyConnection_returns_boolean_witness:
  "transporter_verify demo_env = Inr () \<and>
   EmailController_verifyConnection demo_env [] = (True, [Verify]) \<and>
   transporter_verify demo_env_down = Inl (Error ''ECONNREFUSED'') \<and>
   EmailController_verifyConnection demo_env_down [] = (False, [Verify])"
  using verifyConnection_returns_boolean [of demo_env "[]"]
    verifyConnection_returns_boolean [of demo_env_down "[]"]
  by (simp add: demo_env_def demo_env_down_def)

section \<open>The two template maps\<close>

lemma forEach_keeps_agreement:
  assumes "map_of (templates svc) = map_option compile \<circ> map_of (templateCache svc)"
  shows "map_of (templates (snd (loadTemplates_forEach fs compile files svc))) =
         map_option compile \<circ> map_of (templateCache (snd (loadTemplates_forEach fs compile files svc)))"
  using assms
proof (induction files arbitrary: svc)
  case Nil
  then show ?case by simp
next
  case (Cons f rest)
  show ?case
  proof (cases "endsWith f ''.hbs''")
    case False
    then show ?thesis using Cons by simp
  next
    case True
    show ?thesis
    proof (cases "readFileSync fs (path_join (templatesDir fs) f)")
      case (Inl e)
      then show ?thesis using True Cons.prems by (simp add: Let_def)
    next
      case (Inr templateContent)
      let ?svc' = "svc\<lparr>templateCache :=
                         AList.update (replace_first f ''.hbs'' []) templateContent (templateCache svc),
                       templates :=
                         AList.update (replace_first f ''.hbs'' []) (compile templateContent) (templates svc)\<rparr>"
      have "map_of (templates ?svc') = map_option compile \<circ> map_of (templateCache ?svc')"
        using Cons.prems by (auto simp: update_conv' fun_eq_iff)
      from Cons.IH [OF this] show ?thesis using True Inr by (simp add: Let_def)
    qed
  qed
qed

lemma loadTemplates_keeps_agreement:
  assumes "map_of (templates svc) = map_option compile \<circ> map_of (templateCache svc)"
  shows "map_of (templates (loadTemplates fs compile svc)) =
         map_option compile \<circ> map_of (templateCache (loadTemplates fs compile svc))"
  using assms forEach_keeps_agreement [OF assms]
  by (simp add: loadTemplates_def split: sum.splits)

lemma EmailService_new_agreement:
  "map_of (templates (EmailService_new fs compile)) =
     map_option compile \<circ> map_of (templateCache (EmailService_new fs compile))"
  unfolding EmailService_new_def
  by (rule loadTemplates_keeps_agreement) (simp add: fun_eq_iff)

lemma call_keeps_service: "fst (EmailService_call env (svc, tr) c) = svc"
  by (cases c) simp_all

lemma run_keeps_service: "fst (foldl (EmailService_call env) (svc, tr) cs) = svc"
proof (induction cs arbitrary: tr)
  case Nil
  then show ?case by simp
next
  case (Cons c cs)
  obtain tr' where "EmailService_call env (svc, tr) c = (svc, tr')"
    using call_keeps_service [of env svc tr c]
    by (cases "EmailService_call env (svc, tr) c") simp
  then show ?case using Cons by simp
qed

lemma EmailService_run_service: "fst (EmailService_run env fs compile cs) = EmailService_new fs compile"
  by (simp add: EmailService_run_def run_keeps_service)

lemma demo_run_service:
  "fst (EmailService_run demo_env demo_fs demo_compile demo_calls) = demo_service"
  by (simp add: EmailService_run_service demo_service_def)

text \<open>
  Claim C10 says that a name is listed by \<^verbatim>\<open>getAvailableTemplates\<close> exactly when
  \<^verbatim>\<open>getTemplateContent\<close> returns its content and exactly when \<^verbatim>\<open>sendEmail\<close> can
  render it. The last leg fails: with a template file whose compiled function throws,
  \<open>welcome\<close> is listed and its content is cached, yet \<^verbatim>\<open>sendEmail\<close> returns a
  failed result and the transport is not called.
\<close>

theorem listed_template_not_rendered_counterexample:
  "''welcome'' \<in> set (getAvailableTemplates (EmailService_new demo_fs demo_compile_lazy)) \<and>
   getTemplateContent (EmailService_new demo_fs demo_compile_lazy) ''welcome'' = Some ''Hello '' \<and>
   EmailService_sendEmail demo_env (EmailService_new demo_fs demo_compile_lazy)
       (demo_mail ''welcome'' ''a'') [] =
     (\<lparr>success = False, messageId = None, error = Some ''Parse error on line 1''\<rparr>, [])"
proof -
  have s: "EmailService_new demo_fs demo_compile_lazy =
     \<lparr>templates = [(''welcome'', demo_compile_lazy ''Hello '')],
      templateCache = [(''welcome'', ''Hello '')]\<rparr>"
    by (simp add: EmailService_new_def loadTemplates_def demo_fs_def endsWith_def path_join_def
        Let_def)
  show ?thesis
    unfolding s
    by (simp add: getAvailableTemplates_def getTemplateContent_def EmailService_sendEmail_def
        EmailService_sendEmail_try_def demo_mail_def demo_compile_lazy_def errorText_def)
qed

text \<open>
  Claim C10 as the code has it. After construction, for any directory listing and file
  contents, with or without an exception while loading, and after any sequence of calls
  of the service's methods, the compiled-template map and the content cache have the
  same keys: a name is listed by \<^verbatim>\<open>getAvailableTemplates\<close> exactly when
  \<^verbatim>\<open>getTemplateContent\<close> returns its content. For a name without content
  \<^verbatim>\<open>sendEmail\<close> returns the not-found failure without a transport call; for a name
  with content it finds a template, the compilation of that content, and does what a
  service holding just this template does (the rendering may still throw).
\<close>

theorem templates_and_cache_agree:
  "set (getAvailableTemplates (fst (EmailService_run env fs compile cs))) =
     fst ` set (templateCache (fst (EmailService_run env fs compile cs))) \<and>
   (name \<in> set (getAvailableTemplates (fst (EmailService_run env fs compile cs)))) =
     (getTemplateContent (fst (EmailService_run env fs compile cs)) name \<noteq> None) \<and>
   (getTemplateContent (fst (EmailService_run env fs compile cs)) (template d) = None \<longrightarrow>
      EmailService_sendEmail env (fst (EmailService_run env fs compile cs)) d tr =
        (\<lparr>success = False, messageId = None, error = Some (notFoundMessage (template d))\<rparr>, tr)) \<and>
   (\<forall>templateContent.
      getTemplateContent (fst (EmailService_run env fs compile cs)) (template d) =
        Some templateContent \<longrightarrow>
      EmailService_sendEmail env (fst (EmailService_run env fs compile cs)) d tr =
        EmailService_sendEmail env
          \<lparr>templates = [(template d, compile templateContent)],
           templateCache = [(template d, templateContent)]\<rparr> d tr)"
proof -
  let ?svc = "EmailService_new fs compile"
  have r: "fst (EmailService_run env fs compile cs) = ?svc"
    by (rule EmailService_run_service)
  have a: "map_of (templates ?svc) n = map_option compile (map_of (templateCache ?svc) n)" for n
    using EmailService_new_agreement [of fs compile] by (simp add: fun_eq_iff)
  have k: "(n \<in> fst ` set (templates ?svc)) = (n \<in> fst ` set (templateCache ?svc))" for n
    using a [of n] map_of_eq_None_iff [of "templates ?svc" n]
      map_of_eq_None_iff [of "templateCache ?svc" n]
    by (cases "map_of (templateCache ?svc) n") auto
  have s: "fst ` set (templates ?svc) = fst ` set (templateCache ?svc)"
    using k by blast
  have l: "(name \<in> fst ` set (templateCache ?svc)) = (map_of (templateCache ?svc) name \<noteq> None)"
    using map_of_eq_None_iff [of "templateCache ?svc" name] by auto
  have c1: "set (getAvailableTemplates ?svc) = fst ` set (templateCache ?svc)"
    by (simp add: getAvailableTemplates_def s)
  have c2: "(name \<in> set (getAvailableTemplates ?svc)) = (getTemplateContent ?svc name \<noteq> None)"
    unfolding c1 getTemplateContent_def by (rule l)
  have c3: "EmailService_sendEmail env ?svc d tr =
        (\<lparr>success = False, messageId = None, error = Some (notFoundMessage (template d))\<rparr>, tr)"
    if "getTemplateContent ?svc (template d) = None"
    using that a [of "template d"]
    by (simp add: getTemplateContent_def EmailService_sendEmail_def
        EmailService_sendEmail_try_def errorText_def)
  have c4: "EmailService_sendEmail env ?svc d tr =
        EmailService_sendEmail env
          \<lparr>templates = [(template d, compile templateContent)],
           templateCache = [(template d, templateContent)]\<rparr> d tr"
    if "getTemplateContent ?svc (template d) = Some templateContent" for templateContent
    using that a [of "template d"]
    by (simp add: getTemplateContent_def EmailService_sendEmail_def
        EmailService_sendEmail_try_def)
  show ?thesis
    unfolding r using c1 c2 c3 c4 by blast
qed

theorem templates_and_cache_agree_witness:
  "getTemplateContent (fst (EmailService_run demo_env demo_fs demo_compile demo_calls))
     (template (demo_mail ''nope'' ''b'')) = None \<and>
   EmailService_sendEmail demo_env (fst (EmailService_run demo_env demo_fs demo_compile demo_calls))
       (demo_mail ''nope'' ''b'') [] =
     (\<lparr>success = False, messageId = None, error = Some (notFoundMessage ''nope'')\<rparr>, []) \<and>
   getTemplateContent (fst (EmailService_run demo_env demo_fs demo_compile demo_calls))
     (template (demo_mail ''welcome'' ''a'')) = Some ''Hello '' \<and>
   EmailService_sendEmail demo_env (fst (EmailService_run demo_env demo_fs demo_compile demo_calls))
       (demo_mail ''welcome'' ''a'') [] =
     EmailService_sendEmail demo_env
       \<lparr>templates = [(''welcome'', demo_compile ''Hello '')],
        templateCache = [(''welcome'', ''Hello '')]\<rparr> (demo_mail ''welcome'' ''a'') [] \<and>
   snd (EmailService_run demo_env demo_fs demo_compile demo_calls) \<noteq> []"
proof -
  have n: "getTemplateContent (fst (EmailService_run demo_env demo_fs demo_compile demo_calls))
     (template (demo_mail ''nope'' ''b'')) = None"
    by (simp add: demo_run_service demo_service_eq getTemplateContent_def demo_mail_def)
  have w: "getTemplateContent (fst (EmailService_run demo_env demo_fs demo_compile demo_calls))
     (template (demo_mail ''welcome'' ''a'')) = Some ''Hello ''"
    by (simp add: demo_run_service demo_service_eq getTemplateContent_def demo_mail_def)
  have t: "snd (EmailService_run demo_env demo_fs demo_compile demo_calls) \<noteq> []"
    by (simp add: EmailService_run_def demo_calls_def EmailService_sendCustomEmail_def Let_def
        split: sum.splits)
  show ?thesis
    using n w t
      templates_and_cache_agree [of demo_env demo_fs demo_compile demo_calls "''welcome''"
        "demo_mail ''nope'' ''b''" "[]"]
      templates_and_cache_agree [of demo_env demo_fs demo_compile demo_calls "''welcome''"
        "demo_mail ''welcome'' ''a''" "[]"]
    by (simp add: demo_mail_def)
qed

end
